theory Spec2Isabelle
  imports Complex_Main "HOL-Library.Multiset"
begin

section \<open>Strings of the host language\<close>

text \<open>
  The query string of a URL is percent-encoded ASCII, so \<open>toLowerCase\<close> only has to
  map the letters \<open>A\<close> .. \<open>Z\<close>; every other byte is left as it is.
\<close>

definition lowerChar :: "char \<Rightarrow> char" where
  "lowerChar c =
     (let n = (of_char c :: nat) in if 65 \<le> n \<and> n \<le> 90 then char_of (n + 32) else c)"

definition toLowerCase :: "string \<Rightarrow> string" where
  "toLowerCase s = map lowerChar s"

text \<open>\<open>s.includes(t)\<close>: \<open>t\<close> occurs in \<open>s\<close> as a contiguous substring.\<close>

fun startsWith :: "string \<Rightarrow> string \<Rightarrow> bool" where
  "startsWith s [] = True"
| "startsWith [] (c # cs) = False"
| "startsWith (x # xs) (c # cs) = (x = c \<and> startsWith xs cs)"

fun includes_str :: "string \<Rightarrow> string \<Rightarrow> bool" where
  "includes_str [] t = (t = [])"
| "includes_str (x # xs) t = (startsWith (x # xs) t \<or> includes_str xs t)"

section \<open>Scene selector\<close>

text \<open>
  The part of the document the selector touches: the elements in tree order, each with
  its id, its class list and the inline \<open>style.display\<close> (the empty string while the
  script has not written it).
\<close>

record element =
  el_id :: string
  el_classes :: "string list"
  el_display :: string

type_synonym document = "element list"

definition isScene :: "element \<Rightarrow> bool" where
  "isScene e = (''scene'' \<in> set (el_classes e))"

text \<open>Lines 16 to 24: the id chosen from \<open>window.location.search\<close>.\<close>

definition sceneId :: "string \<Rightarrow> string" where
  "sceneId location_search =
     (let search = toLowerCase location_search in
      if includes_str search ''scene2'' then ''scene2''
      else if includes_str search ''scene3'' then ''scene3''
      else if includes_str search ''scene1'' then ''scene1''
      else ''scene1'')"

text \<open>\<open>querySelectorAll('.scene').forEach(scene => scene.style.display = 'none')\<close>\<close>

definition hideScenes :: "document \<Rightarrow> document" where
  "hideScenes doc = map (\<lambda>e. if isScene e then e\<lparr>el_display := ''none''\<rparr> else e) doc"

text \<open>
  \<open>getElementById\<close> followed by the guarded write: the first element in tree order
  with the id gets \<open>display = 'block'\<close>; with no such element nothing is written.
\<close>

fun showById :: "string \<Rightarrow> document \<Rightarrow> document" where
  "showById i [] = []"
| "showById i (e # es) =
     (if el_id e = i then e\<lparr>el_display := ''block''\<rparr> # es else e # showById i es)"

definition setActiveScene :: "string \<Rightarrow> document \<Rightarrow> document" where
  "setActiveScene location_search doc = showById (sceneId location_search) (hideScenes doc)"

text \<open>A slide container is visible unless its display is \<open>none\<close>.\<close>

definition visibleScenes :: "document \<Rightarrow> element list" where
  "visibleScenes doc = filter (\<lambda>e. isScene e \<and> el_display e \<noteq> ''none'') doc"

definition getElementById :: "string \<Rightarrow> document \<Rightarrow> element option" where
  "getElementById i doc = find (\<lambda>e. el_id e = i) doc"

text \<open>A deck in which the second slide has not been written yet.\<close>

definition deckWithoutScene2 :: document where
  "deckWithoutScene2 =
     [\<lparr>el_id = ''scene1'', el_classes = [''scene''], el_display = ''''\<rparr>,
      \<lparr>el_id = ''scene3'', el_classes = [''scene''], el_display = ''''\<rparr>]"

definition fullDeck :: document where
  "fullDeck =
     [\<lparr>el_id = ''scene1'', el_classes = [''scene''], el_display = ''''\<rparr>,
      \<lparr>el_id = ''scene2'', el_classes = [''scene''], el_display = ''''\<rparr>,
      \<lparr>el_id = ''scene3'', el_classes = [''scene''], el_display = ''''\<rparr>]"

section \<open>Randomness and the engine's sort\<close>

text \<open>
  \<open>Math.random\<close> is an input of the page: \<open>rnd i\<close> is the value its \<open>i\<close>-th call
  returns during the operation at hand. The values are doubles in \<open>[0, 1)\<close>; they are
  kept as the rationals they denote.
\<close>

type_synonym random = "nat \<Rightarrow> rat"

definition unitInterval :: "random \<Rightarrow> bool" where
  "unitInterval rnd = (\<forall>i. 0 \<le> rnd i \<and> rnd i < 1)"

text \<open>
  \<open>choices.sort(() => Math.random() - 0.5)\<close>: the comparator ignores its arguments,
  so the outcome is decided by the draws alone; \<open>rnd n - 1 / 2\<close> is the result of the
  \<open>n\<close>-th call (the subtraction of doubles keeps the sign of the exact difference). The
  language leaves the sequence of comparator calls to the engine. The model follows the
  sort of V8 (Chrome, Node) on arrays of fewer than 64 elements, where the whole array is
  one run: \<open>CountAndMakeRun\<close> finds the run at the start of the array and reverses it when
  it descends, then \<open>BinaryInsertionSort\<close> inserts each remaining element by binary search.
\<close>

text \<open>
  The loop of \<open>CountAndMakeRun\<close>: each of the \<open>m\<close> elements after the second is compared
  with its predecessor, and the run ends at the first comparison that breaks its direction.
  Returns the run length and the number of comparator calls made so far.
\<close>

fun countRun :: "random \<Rightarrow> bool \<Rightarrow> nat \<Rightarrow> nat \<Rightarrow> nat \<Rightarrow> nat \<times> nat" where
  "countRun rnd isDescending n runLength 0 = (runLength, n)"
| "countRun rnd isDescending n runLength (Suc m) =
     (let order = rnd n - 1 / 2 in
      if (if isDescending then 0 \<le> order else order < 0) then (runLength, Suc n)
      else countRun rnd isDescending (Suc n) (Suc runLength) m)"

text \<open>
  The binary search of \<open>BinaryInsertionSort\<close>: the pivot is compared with the element at
  \<open>mid\<close>; a negative result moves \<open>right\<close> down to \<open>mid\<close>, any other moves \<open>left\<close> up
  past it.
\<close>

function findSlot :: "random \<Rightarrow> nat \<Rightarrow> nat \<Rightarrow> nat \<Rightarrow> nat \<times> nat" where
  "findSlot rnd n left right =
     (if left < right
      then (let mid = left + (right - left) div 2;
                order = rnd n - 1 / 2
            in if order < 0 then findSlot rnd (Suc n) left mid
               else findSlot rnd (Suc n) (mid + 1) right)
      else (left, n))"
  by pat_completeness auto
termination
  by (relation "measure (\<lambda>(rnd, n, left, right). right - left)") auto

declare findSlot.simps [simp del]

text \<open>
  The outer loop of \<open>BinaryInsertionSort\<close>: \<open>placed\<close> is the part of the array before
  \<open>start\<close>, the pivot is the element at \<open>start\<close> and goes in at the slot found.
\<close>

fun binaryInsertionSort :: "random \<Rightarrow> nat \<Rightarrow> 'a list \<Rightarrow> 'a list \<Rightarrow> 'a list" where
  "binaryInsertionSort rnd n placed [] = placed"
| "binaryInsertionSort rnd n placed (pivot # rest) =
     (case findSlot rnd n 0 (length placed) of
        (left, n') \<Rightarrow>
          binaryInsertionSort rnd n' (take left placed @ pivot # drop left placed) rest)"

text \<open>
  The sort: nothing is compared in an array of fewer than two elements; otherwise the first
  call compares the second element with the first and decides the direction of the run.
\<close>

definition sortRandom :: "random \<Rightarrow> 'a list \<Rightarrow> 'a list" where
  "sortRandom rnd xs =
     (if length xs < 2 then xs
      else
        let isDescending = (rnd 0 - 1 / 2 < 0)
        in case countRun rnd isDescending 1 2 (length xs - 2) of
             (runLength, n) \<Rightarrow>
               binaryInsertionSort rnd n
                 (if isDescending then rev (take runLength xs) else take runLength xs)
                 (drop runLength xs))"

section \<open>Quiz data\<close>

record choice =
  ctext :: string
  correct :: bool
  message :: string

record question =
  scenario :: string
  choices :: "choice list"

text \<open>The punctuation outside ASCII, as its UTF-8 bytes.\<close>

definition emdash :: string where "emdash = [CHR 0xE2, CHR 0x80, CHR 0x94]"
definition lsquo :: string where "lsquo = [CHR 0xE2, CHR 0x80, CHR 0x98]"
definition rsquo :: string where "rsquo = [CHR 0xE2, CHR 0x80, CHR 0x99]"
definition ldquo :: string where "ldquo = [CHR 0xE2, CHR 0x80, CHR 0x9C]"
definition rdquo :: string where "rdquo = [CHR 0xE2, CHR 0x80, CHR 0x9D]"
definition nbsp :: string where "nbsp = [CHR 0xC2, CHR 0xA0]"

definition quizData :: "question list" where
  "quizData =
    [\<lparr>scenario = ''An employee uses their personal phone to take a picture of a workplace incident.'',
      choices =
       [\<lparr>ctext = ''Breach of Policy'', correct = True,
         message = ''Using personal phones for incident reports is risky. Use official devices.''\<rparr>,
        \<lparr>ctext = ''Safe Practice'', correct = False,
         message = ''Even for good intentions, personal devices are not secure.''\<rparr>,
        \<lparr>ctext = ''Encouraged for Transparency'', correct = False,
         message = ''Transparency matters '' @ emdash @ '' but security protocols come first.''\<rparr>]\<rparr>,
     \<lparr>scenario = ''You find a USB drive labeled '' @ ldquo @ ''Staff Menu'' @ nbsp @ ''2024'' @ rdquo
         @ '' in the pantry.'',
      choices =
       [\<lparr>ctext = ''Report to IT Immediately'', correct = True,
         message = ''It could be a bait. Never plug unknown devices.''\<rparr>,
        \<lparr>ctext = ''Plug It In to Check Contents'', correct = False,
         message = ''Could contain malware or keyloggers.''\<rparr>,
        \<lparr>ctext = ''Leave It on the Table'', correct = False,
         message = ''Someone else may fall into the trap.''\<rparr>]\<rparr>,
     \<lparr>scenario = ''Someone walks behind you and says: '' @ lsquo
         @ ''I'm from the audit team, can you hold the door?'' @ rsquo,
      choices =
       [\<lparr>ctext = ''Politely Refuse and Ask for ID'', correct = True,
         message = ''Always verify. No badge = no access.''\<rparr>,
        \<lparr>ctext = ''Hold the Door'', correct = False,
         message = ''Could be social engineering. Tailgating is a real threat.''\<rparr>,
        \<lparr>ctext = ''Assume They're an Employee'', correct = False,
         message = ''Never assume. It'' @ rsquo @ ''s your responsibility to check.''\<rparr>]\<rparr>,
     \<lparr>scenario = ''You spot a coworker'' @ rsquo
         @ ''s password written on a sticky note stuck to their monitor.'',
      choices =
       [\<lparr>ctext = ''Remind Them & Report to IT If Needed'', correct = True,
         message = ''Writing passwords down puts systems at risk.''\<rparr>,
        \<lparr>ctext = ''Ignore It'', correct = False,
         message = ''Ignoring puts your team in danger.''\<rparr>,
        \<lparr>ctext = ''Take Note for Emergency Use'', correct = False,
         message = ''That'' @ rsquo @ ''s unauthorized access '' @ emdash @ '' a serious offence.''\<rparr>]\<rparr>,
     \<lparr>scenario = ''A colleague sends a customer'' @ rsquo
         @ ''s allergy info in a WhatsApp message for delivery coordination.'',
      choices =
       [\<lparr>ctext = ''Data Breach'', correct = True,
         message = ''Personal apps are not protected. Use official tools only.''\<rparr>,
        \<lparr>ctext = ''OK for Quick Tasks'', correct = False,
         message = ''Speed doesn'' @ rsquo @ ''t justify insecure sharing.''\<rparr>,
        \<lparr>ctext = ''Not an Issue if Deleted Later'', correct = False,
         message = ''Data can be backed up to cloud even after deletion.''\<rparr>]\<rparr>]"

section \<open>The quiz slide: document and session\<close>

text \<open>
  The elements the quiz code looks up, nested as the lookups nest: an element found
  through another one is a field of it, and \<open>None\<close> is a lookup that returned
  \<open>null\<close>. A class list is kept in insertion order.
\<close>

definition classAdd :: "string \<Rightarrow> string list \<Rightarrow> string list" where
  "classAdd c cs = (if c \<in> set cs then cs else cs @ [c])"

record button =
  textContent :: string
  classList :: "string list"
  dataset_correct :: string
  dataset_message :: string
  disabled :: bool

record card_back =
  choice_container :: "button list option"
  explanations :: "string list"

record quiz_card =
  card_classList :: "string list"
  front :: "string option"
  backFace :: "card_back option"

record next_container =
  nc_display :: string
  nextButton :: "string option"

text \<open>
  The sizes, position and times of a particle are doubles computed from draws of
  \<open>Math.random\<close>. The arithmetic of doubles rounds and is not modelled: such a value is
  kept as the expression the code evaluates, over the draws it reads.
\<close>

datatype number_expr =
  Num rat
  | Times number_expr number_expr
  | Plus number_expr number_expr

record particle =
  p_className :: string
  p_width :: number_expr
  p_height :: number_expr
  p_background :: string
  p_left :: number_expr
  p_animationDuration :: number_expr
  p_animationDelay :: number_expr

record scoreboard_el =
  sb_display :: string
  scoreText :: "string option"
  restartBtn :: bool
  confettiContainer :: "particle list option"

text \<open>
  The notification bubble: its class list, its inline display, whether the timer kept in
  \<open>_timeout\<close> is still pending, and how many 800 ms hide timers are pending.
\<close>

record notification =
  n_classList :: "string list"
  n_display :: string
  n_timeout :: bool
  n_hideTimers :: nat

record quiz =
  currentIndex :: nat
  score :: nat
  answered :: bool
  quizCard :: "quiz_card option"
  nextContainer :: "next_container option"
  scoreboard :: "scoreboard_el option"
  notificationEl :: "notification option"

datatype error = TypeError

text \<open>\<open>backChoices\<close>, the element \<open>.quiz-card-back .choice-container\<close> of the card.\<close>

definition backChoices :: "quiz \<Rightarrow> button list option" where
  "backChoices s =
     (case quizCard s of
        None \<Rightarrow> None
      | Some qc \<Rightarrow> (case backFace qc of None \<Rightarrow> None | Some b \<Rightarrow> choice_container b))"

text \<open>The decimal digits a template literal writes for a count.\<close>

fun toString :: "nat \<Rightarrow> string" where
  "toString n =
     (if n < 10 then [char_of (48 + n)]
      else toString (n div 10) @ [char_of (48 + n mod 10)])"

declare toString.simps [simp del]

subsection \<open>Notification\<close>

definition hideNotification :: "notification \<Rightarrow> notification" where
  "hideNotification n =
     (if ''show'' \<notin> set (n_classList n) then n
      else n\<lparr>n_classList := classAdd ''hide'' (removeAll ''show'' (n_classList n)),
             n_hideTimers := Suc (n_hideTimers n)\<rparr>)"

text \<open>Lines 369 to 386: the pending timer is cleared, and set again on the first card only.\<close>

definition renderNotification :: "nat \<Rightarrow> notification \<Rightarrow> notification" where
  "renderNotification idx n =
     (if idx = 0 then n\<lparr>n_timeout := True\<rparr> else hideNotification (n\<lparr>n_timeout := False\<rparr>))"

subsection \<open>renderCard\<close>

definition createButton :: "choice \<Rightarrow> button" where
  "createButton c =
     \<lparr>textContent = ctext c,
      classList = [''choice''],
      dataset_correct = (if correct c then ''true'' else ''false''),
      dataset_message = message c,
      disabled = False\<rparr>"

text \<open>Lines 338 to 346: the controls created for question \<open>idx\<close>, in shuffled order.\<close>

definition createChoices :: "nat \<Rightarrow> random \<Rightarrow> button list" where
  "createChoices idx rnd = map createButton (sortRandom rnd (choices (quizData ! idx)))"

text \<open>
  \<open>quizData[idx]\<close> is \<open>undefined\<close> out of range, and reading a property of it
  throws. The card itself is used without a guard on line 353, so a missing card throws
  there.
\<close>

definition renderCard :: "nat \<Rightarrow> random \<Rightarrow> quiz \<Rightarrow> error + quiz" where
  "renderCard idx rnd s =
     (if length quizData \<le> idx then Inl TypeError
      else
        let data = quizData ! idx;
            btns = createChoices idx rnd
        in case quizCard s of
             None \<Rightarrow> Inl TypeError
           | Some qc \<Rightarrow>
               Inr (s\<lparr>answered := False,
                      quizCard := Some (qc
                        \<lparr>front := map_option (\<lambda>_. scenario data) (front qc),
                         backFace := map_option
                           (\<lambda>b. b\<lparr>choice_container := map_option (\<lambda>_. btns) (choice_container b),
                                  explanations := drop 1 (explanations b)\<rparr>)
                           (backFace qc),
                         card_classList :=
                           removeAll ''flipped''
                             (removeAll ''wrong'' (removeAll ''correct'' (card_classList qc)))\<rparr>),
                      nextContainer := map_option
                        (\<lambda>n. n\<lparr>nc_display := ''none'',
                               nextButton := map_option
                                 (\<lambda>_. if idx < length quizData - 1 then ''Next'' else ''Finish'')
                                 (nextButton n)\<rparr>)
                        (nextContainer s),
                      notificationEl := map_option (renderNotification idx) (notificationEl s)\<rparr>))"

subsection \<open>The click handlers\<close>

text \<open>Lines 391 to 411, bound only when the card exists.\<close>

definition onCardClick :: "quiz \<Rightarrow> quiz" where
  "onCardClick s =
     (case quizCard s of
        None \<Rightarrow> s
      | Some qc \<Rightarrow>
          s\<lparr>quizCard := Some
               (if ''flipped'' \<notin> set (card_classList qc) \<and> \<not> answered s
                then qc\<lparr>card_classList := classAdd ''flipped'' (card_classList qc)\<rparr>
                else qc),
            notificationEl := map_option hideNotification (notificationEl s)\<rparr>)"

text \<open>
  Lines 430 to 436 for the control at position \<open>j\<close>, where \<open>k\<close> is the position of
  the clicked one.
\<close>

fun disableChoices :: "nat \<Rightarrow> nat \<Rightarrow> button list \<Rightarrow> button list" where
  "disableChoices k j [] = []"
| "disableChoices k j (b # bs) =
     (if ''choice'' \<in> set (classList b)
      then (if j \<noteq> k \<and> dataset_correct b = ''true''
            then b\<lparr>disabled := True, classList := classAdd ''correct'' (classList b)\<rparr>
            else b\<lparr>disabled := True\<rparr>)
      else b)
     # disableChoices k (Suc j) bs"

text \<open>
  \<open>onSelectChoice\<close> with \<open>e.currentTarget\<close> the \<open>k\<close>-th control of the choice
  container. A control is clickable only while it is in the document, that is in the
  container, and the container is taken to lie inside the back face of the card, as the
  records nest it; so the card and its back face exist whenever the handler runs. (On a
  page whose card element is itself the back face, line 442 finds no back face and line
  443 throws; such a page is outside this model.) With no such control no click is
  delivered.
\<close>

definition onSelectChoice :: "nat \<Rightarrow> quiz \<Rightarrow> quiz" where
  "onSelectChoice k s =
     (if answered s then s
      else case quizCard s of
        None \<Rightarrow> s
      | Some qc \<Rightarrow>
         (case backFace qc of
            None \<Rightarrow> s
          | Some b \<Rightarrow>
             (case choice_container b of
                None \<Rightarrow> s
              | Some bs \<Rightarrow>
                  if length bs \<le> k then s
                  else
                    let btn = bs ! k;
                        isCorrect = (dataset_correct btn = ''true'');
                        verdict = (if isCorrect then ''correct'' else ''wrong'');
                        bs1 = bs[k := btn\<lparr>classList := classAdd verdict (classList btn)\<rparr>]
                    in s\<lparr>answered := True,
                         score := (if isCorrect then score s + 1 else score s),
                         quizCard := Some (qc
                           \<lparr>card_classList := classAdd verdict (card_classList qc),
                            backFace := Some (b
                              \<lparr>choice_container := Some (disableChoices k 0 bs1),
                               explanations := explanations b @ [dataset_message btn]\<rparr>)\<rparr>),
                         nextContainer := map_option (\<lambda>n. n\<lparr>nc_display := ''block''\<rparr>)
                           (nextContainer s)\<rparr>)))"

subsection \<open>Confetti\<close>

definition colours :: "string list" where
  "colours =
     [''rgba(143, 247, 122, 0.9)'',
      ''rgba(196, 158, 234, 0.9)'',
      ''rgba(146, 224, 128, 0.9)'',
      ''rgba(91, 192, 235, 0.9)'']"

definition pieceCount :: nat where
  "pieceCount = 40"

text \<open>
  One turn of the loop body, lines 501 to 512: piece \<open>i\<close> from the four draws it makes.
  Lengths are in px, the position in percent, the times in seconds.
\<close>

definition confettiPiece :: "nat \<Rightarrow> rat \<Rightarrow> rat \<Rightarrow> rat \<Rightarrow> rat \<Rightarrow> particle" where
  "confettiPiece i r0 r1 r2 r3 =
     (let size = Plus (Times (Num r0) (Num 6)) (Num 4);
          duration = Plus (Num 3) (Times (Num r2) (Num 2));
          delay = Times (Num r3) (Num (1 / 2))
      in \<lparr>p_className = ''confetti-piece'',
          p_width = size,
          p_height = size,
          p_background = colours ! (i mod length colours),
          p_left = Times (Num r1) (Num 100),
          p_animationDuration = duration,
          p_animationDelay = delay\<rparr>)"

function confettiLoop :: "random \<Rightarrow> nat \<Rightarrow> particle list \<Rightarrow> particle list" where
  "confettiLoop rnd i children =
     (if i < pieceCount
      then confettiLoop rnd (i + 1)
             (children @
                [confettiPiece i (rnd (4 * i)) (rnd (4 * i + 1)) (rnd (4 * i + 2)) (rnd (4 * i + 3))])
      else children)"
  by pat_completeness auto
termination
  by (relation "measure (\<lambda>(rnd, i, children). pieceCount - i)") auto

declare confettiLoop.simps [simp del]

definition launchConfetti :: "random \<Rightarrow> quiz \<Rightarrow> quiz" where
  "launchConfetti rnd s =
     s\<lparr>scoreboard := map_option
         (\<lambda>sb. sb\<lparr>confettiContainer := map_option (\<lambda>_. confettiLoop rnd 0 []) (confettiContainer sb)\<rparr>)
         (scoreboard s)\<rparr>"

subsection \<open>goToNext and restartQuiz\<close>

definition goToNext :: "random \<Rightarrow> quiz \<Rightarrow> error + quiz" where
  "goToNext rnd s =
     (let s1 = s\<lparr>currentIndex := currentIndex s + 1\<rparr> in
      if currentIndex s1 < length quizData then renderCard (currentIndex s1) rnd s1
      else
        let s2 = s1\<lparr>scoreboard := map_option
                     (\<lambda>sb. sb\<lparr>scoreText := map_option
                                (\<lambda>_. ''Score: '' @ toString (score s1) @ ''/''
                                        @ toString (length quizData))
                                (scoreText sb),
                              sb_display := ''flex''\<rparr>)
                     (scoreboard s1)\<rparr>
        in Inr (if score s2 = length quizData then launchConfetti rnd s2 else s2))"

definition restartQuiz :: "random \<Rightarrow> quiz \<Rightarrow> error + quiz" where
  "restartQuiz rnd s =
     renderCard 0 rnd
       (s\<lparr>currentIndex := 0,
          score := 0,
          answered := False,
          scoreboard := map_option
            (\<lambda>sb. sb\<lparr>sb_display := ''none'',
                     confettiContainer := map_option (\<lambda>_. []) (confettiContainer sb)\<rparr>)
            (scoreboard s)\<rparr>)"

text \<open>
  Lines 267 to 269 and 529: the session as the page creates it over the elements it
  found, and the first render.
\<close>

definition loadQuiz ::
  "random \<Rightarrow> quiz_card option \<Rightarrow> next_container option \<Rightarrow> scoreboard_el option
     \<Rightarrow> notification option \<Rightarrow> error + quiz" where
  "loadQuiz rnd qc nxt sb notif =
     renderCard 0 rnd
       \<lparr>currentIndex = 0, score = 0, answered = False, quizCard = qc,
        nextContainer = nxt, scoreboard = sb, notificationEl = notif\<rparr>"

subsection \<open>A quiz session\<close>

text \<open>
  One card of a session: the click on the \<open>k\<close>-th control, then the click on the
  advance control, whose render or confetti draws from \<open>rnd\<close>.
\<close>

definition answerAndAdvance :: "nat \<Rightarrow> random \<Rightarrow> quiz \<Rightarrow> error + quiz" where
  "answerAndAdvance k rnd s = goToNext rnd (onSelectChoice k s)"

fun playCards :: "(nat \<times> random) list \<Rightarrow> quiz \<Rightarrow> error + quiz" where
  "playCards [] s = Inr s"
| "playCards ((k, rnd) # rest) s =
     (case answerAndAdvance k rnd s of Inl e \<Rightarrow> Inl e | Inr s' \<Rightarrow> playCards rest s')"

text \<open>Whether the \<open>k\<close>-th control on display carries the flag of the right answer.\<close>

definition pickedCorrect :: "nat \<Rightarrow> quiz \<Rightarrow> bool" where
  "pickedCorrect k s =
     (case backChoices s of
        None \<Rightarrow> False
      | Some bs \<Rightarrow> k < length bs \<and> dataset_correct (bs ! k) = ''true'')"

text \<open>The number of correct selections made along a session.\<close>

fun correctSelections :: "(nat \<times> random) list \<Rightarrow> quiz \<Rightarrow> nat" where
  "correctSelections [] s = 0"
| "correctSelections ((k, rnd) # rest) s =
     (if pickedCorrect k s then 1 else 0)
     + (case answerAndAdvance k rnd s of Inl e \<Rightarrow> 0 | Inr s' \<Rightarrow> correctSelections rest s')"

text \<open>
  Card \<open>i\<close> is on display and waits for its answer: three controls sit in the choice
  container and none has been selected.
\<close>

definition cardReady :: "nat \<Rightarrow> quiz \<Rightarrow> bool" where
  "cardReady i s =
     (currentIndex s = i \<and> \<not> answered s
      \<and> (case backChoices s of None \<Rightarrow> False | Some bs \<Rightarrow> length bs = 3))"

text \<open>The explanation nodes under the back face, and the text on the front face.\<close>

definition explanationNodes :: "quiz \<Rightarrow> string list" where
  "explanationNodes s =
     (case quizCard s of
        None \<Rightarrow> []
      | Some qc \<Rightarrow> (case backFace qc of None \<Rightarrow> [] | Some b \<Rightarrow> explanations b))"

definition frontText :: "quiz \<Rightarrow> string option" where
  "frontText s = (case quizCard s of None \<Rightarrow> None | Some qc \<Rightarrow> front qc)"

text \<open>The particles on display.\<close>

definition particles :: "quiz \<Rightarrow> particle list" where
  "particles s =
     (case scoreboard s of
        None \<Rightarrow> []
      | Some sb \<Rightarrow> (case confettiContainer sb of None \<Rightarrow> [] | Some ps \<Rightarrow> ps))"

text \<open>A page with every element of the quiz slide, as it stands before the first render.\<close>

definition quizPage :: quiz where
  "quizPage =
     \<lparr>currentIndex = 0, score = 0, answered = False,
      quizCard = Some \<lparr>card_classList = [''quiz-card''], front = Some [],
                       backFace = Some \<lparr>choice_container = Some [], explanations = []\<rparr>\<rparr>,
      nextContainer = Some \<lparr>nc_display = [], nextButton = Some ''Next''\<rparr>,
      scoreboard = Some \<lparr>sb_display = [], scoreText = Some [], restartBtn = True,
                         confettiContainer = Some []\<rparr>,
      notificationEl = Some \<lparr>n_classList = [''notifications''], n_display = [],
                              n_timeout = False, n_hideTimers = 0\<rparr>\<rparr>"

text \<open>The full page after its first render, with every draw equal to 0.\<close>

definition firstCard :: quiz where
  "firstCard = (case renderCard 0 (\<lambda>_. 0) quizPage of Inl e \<Rightarrow> quizPage | Inr s \<Rightarrow> s)"

text \<open>
  A session of five cards. With every draw equal to 0 each render reverses the defined
  order, so the correct control is the one at position 2 on each card.
\<close>

definition mixedSession :: "(nat \<times> random) list" where
  "mixedSession = [(0, \<lambda>_. 0), (1, \<lambda>_. 0), (0, \<lambda>_. 0), (2, \<lambda>_. 0), (0, \<lambda>_. 0)]"

text \<open>
  A page at the end of a session: the last card flipped and answered wrongly, its
  explanation and the Finish label on display, the scoreboard shown with a particle left
  in the confetti container, and the notification hidden.
\<close>

definition finishedPage :: quiz where
  "finishedPage =
     \<lparr>currentIndex = 5, score = 3, answered = True,
      quizCard = Some
        \<lparr>card_classList = [''quiz-card'', ''flipped'', ''wrong''],
         front = Some (scenario (quizData ! 4)),
         backFace = Some
           \<lparr>choice_container = Some
              [(createButton (choices (quizData ! 4) ! 1))
                 \<lparr>disabled := True, classList := [''choice'', ''wrong'']\<rparr>,
               (createButton (choices (quizData ! 4) ! 0))
                 \<lparr>disabled := True, classList := [''choice'', ''correct'']\<rparr>,
               (createButton (choices (quizData ! 4) ! 2))\<lparr>disabled := True\<rparr>],
            explanations = [message (choices (quizData ! 4) ! 1)]\<rparr>\<rparr>,
      nextContainer = Some \<lparr>nc_display = ''block'', nextButton = Some ''Finish''\<rparr>,
      scoreboard = Some
        \<lparr>sb_display = ''flex'', scoreText = Some ''Score: 3/5'', restartBtn = True,
         confettiContainer = Some [confettiPiece 0 0 0 0 0]\<rparr>,
      notificationEl = Some
        \<lparr>n_classList = [''notifications'', ''hide''], n_display = ''none'',
         n_timeout = False, n_hideTimers = 0\<rparr>\<rparr>"

section \<open>The lock-screen slide\<close>

text \<open>
  The elements of the exercise. The two choice buttons are taken to exist, as the code
  takes them; every other element may be missing. A tween is recorded by the values it
  ends on, and a callback the animation library still owes is counted as pending: the
  library calls it later, as an event of its own.
\<close>

record overlay =
  o_opacity :: rat
  o_pointerEvents :: string

record exercise_card =
  c_scale :: rat
  c_opacity :: rat

record scene1 =
  lockBtn_disabled :: bool
  ignoreBtn_disabled :: bool
  exerciseCard :: "exercise_card option"
  errorOverlayNew :: "overlay option"
  monitorShakeContainer :: "string list option"
  retryBtn :: "nat option"
  lockToggle :: "bool option"
  lockedOverlay :: "rat option"
  lockedText :: "rat option"
  successCheck :: "rat option"
  lockedSubtext :: "rat option"
  shakeCalls :: nat
  toggleCalls :: nat
  retryTimelines :: nat

text \<open>
  \<open>retryBtn\<close> holds the number of \<open>onRetry\<close> closures bound to the retry control,
  \<open>monitorShakeContainer\<close> its class list, the locked elements their opacity.
\<close>

definition disableButtons :: "bool \<Rightarrow> scene1 \<Rightarrow> scene1" where
  "disableButtons state s = s\<lparr>lockBtn_disabled := state, ignoreBtn_disabled := state\<rparr>"

text \<open>Lines 96 to 141. The inner delayed call is owed once the overlay tween starts.\<close>

definition runLockSequence :: "scene1 \<Rightarrow> scene1" where
  "runLockSequence s =
     (let s1 = disableButtons True s in
      s1\<lparr>lockToggle := map_option (\<lambda>_. False) (lockToggle s1),
         exerciseCard := map_option (\<lambda>c. c\<lparr>c_scale := 85 / 100, c_opacity := 0\<rparr>) (exerciseCard s1),
         lockedOverlay := map_option (\<lambda>_. 1) (lockedOverlay s1),
         toggleCalls := Suc (toggleCalls s1),
         lockedText := map_option (\<lambda>_. 1) (lockedText s1),
         successCheck := map_option (\<lambda>_. 1) (successCheck s1),
         lockedSubtext := map_option (\<lambda>_. 1) (lockedSubtext s1)\<rparr>)"

text \<open>The delayed call of line 124 runs.\<close>

definition toggleCall :: "scene1 \<Rightarrow> scene1" where
  "toggleCall s =
     (if toggleCalls s = 0 then s
      else s\<lparr>toggleCalls := toggleCalls s - 1,
             lockToggle := map_option (\<lambda>_. True) (lockToggle s)\<rparr>)"

text \<open>
  Lines 144 to 186. With a retry control, line 183 writes to the error overlay without a
  guard, and throws when the overlay is missing.
\<close>

definition runErrorSequence :: "scene1 \<Rightarrow> error + scene1" where
  "runErrorSequence s =
     (let s1 = disableButtons True s;
          s2 = s1\<lparr>exerciseCard := map_option (\<lambda>c. c\<lparr>c_scale := 92 / 100, c_opacity := 0\<rparr>)
                     (exerciseCard s1),
                  errorOverlayNew := map_option (\<lambda>ov. ov\<lparr>o_opacity := 1\<rparr>) (errorOverlayNew s1)\<rparr>;
          s3 = (case monitorShakeContainer s2 of
                  None \<Rightarrow> s2
                | Some cl \<Rightarrow> s2\<lparr>monitorShakeContainer := Some (classAdd ''shake'' cl),
                                 shakeCalls := Suc (shakeCalls s2)\<rparr>)
      in case retryBtn s3 of
           None \<Rightarrow> Inr s3
         | Some n \<Rightarrow>
            (case errorOverlayNew s3 of
               None \<Rightarrow> Inl TypeError
             | Some ov \<Rightarrow>
                 Inr (s3\<lparr>errorOverlayNew := Some (ov\<lparr>o_pointerEvents := ''auto''\<rparr>),
                        retryBtn := Some (Suc n)\<rparr>)))"

text \<open>The delayed call of line 159 runs.\<close>

definition shakeCall :: "scene1 \<Rightarrow> scene1" where
  "shakeCall s =
     (if shakeCalls s = 0 then s
      else s\<lparr>shakeCalls := shakeCalls s - 1,
             monitorShakeContainer := map_option (removeAll ''shake'') (monitorShakeContainer s)\<rparr>)"




text \<open>Clicks on the two choice buttons; a disabled button delivers no click.\<close>

definition clickLock :: "scene1 \<Rightarrow> scene1" where
  "clickLock s = (if lockBtn_disabled s then s else runLockSequence s)"



text \<open>The slide with all of its elements, as loaded.\<close>

definition scene1Page :: scene1 where
  "scene1Page =
     \<lparr>lockBtn_disabled = False, ignoreBtn_disabled = False,
      exerciseCard = Some \<lparr>c_scale = 1, c_opacity = 1\<rparr>,
      errorOverlayNew = Some \<lparr>o_opacity = 0, o_pointerEvents = ''none''\<rparr>,
      monitorShakeContainer = Some [''monitor-shake-container''],
      retryBtn = Some 0,
      lockToggle = Some False,
      lockedOverlay = Some 0, lockedText = Some 0, successCheck = Some 0,
      lockedSubtext = Some 0,
      shakeCalls = 0, toggleCalls = 0, retryTimelines = 0\<rparr>"

section \<open>Facts about strings\<close>

lemma startsWith_iff: "startsWith s t \<longleftrightarrow> (\<exists>q. s = t @ q)"
  by (induction s t rule: startsWith.induct) auto

lemma includes_iff: "includes_str s t \<longleftrightarrow> (\<exists>p q. s = p @ t @ q)"
proof (induction s)
  case Nil
  then show ?case by auto
next
  case (Cons x xs)
  show ?case
  proof
    assume "includes_str (x # xs) t"
    then consider "startsWith (x # xs) t" | "includes_str xs t" by auto
    then show "\<exists>p q. x # xs = p @ t @ q"
    proof cases
      case 1
      then obtain q where "x # xs = t @ q" by (auto simp: startsWith_iff)
      then have "x # xs = [] @ t @ q" by simp
      then show ?thesis by blast
    next
      case 2
      then obtain p q where "xs = p @ t @ q" using Cons.IH by auto
      then have "x # xs = (x # p) @ t @ q" by simp
      then show ?thesis by blast
    qed
  next
    assume "\<exists>p q. x # xs = p @ t @ q"
    then obtain p q where pq: "x # xs = p @ t @ q" by auto
    show "includes_str (x # xs) t"
    proof (cases p)
      case Nil
      with pq have "startsWith (x # xs) t" by (auto simp: startsWith_iff)
      then show ?thesis by simp
    next
      case (Cons y ys)
      with pq have "xs = ys @ t @ q" by simp
      then have "includes_str xs t" using Cons.IH by blast
      then show ?thesis by simp
    qed
  qed
qed

section \<open>Facts about the scene selector\<close>

lemma isScene_display [simp]: "isScene (e\<lparr>el_display := d\<rparr>) = isScene e"
  by (simp add: isScene_def)

lemma visibleScenes_hideScenes: "visibleScenes (hideScenes doc) = []"
  by (induction doc) (auto simp: visibleScenes_def hideScenes_def)

lemma hideScenes_ids: "map el_id (hideScenes doc) = map el_id doc"
  by (induction doc) (auto simp: hideScenes_def)

lemma find_hideScenes:
  "find (\<lambda>e. el_id e = i) (hideScenes doc) =
     map_option (\<lambda>e. if isScene e then e\<lparr>el_display := ''none''\<rparr> else e)
       (find (\<lambda>e. el_id e = i) doc)"
  by (induction doc) (auto simp: hideScenes_def)

lemma showById_absent: "find (\<lambda>e. el_id e = i) doc = None \<Longrightarrow> showById i doc = doc"
  by (induction doc) (auto split: if_splits)

lemma visibleScenes_showById:
  assumes "visibleScenes doc = []"
  shows "visibleScenes (showById i doc) =
           (case find (\<lambda>e. el_id e = i) doc of
              None \<Rightarrow> []
            | Some e \<Rightarrow> if isScene e then [e\<lparr>el_display := ''block''\<rparr>] else [])"
  using assms by (induction doc) (auto simp: visibleScenes_def split: if_splits)

lemma visibleScenes_setActiveScene:
  "visibleScenes (setActiveScene q doc) =
     (case getElementById (sceneId q) doc of
        None \<Rightarrow> []
      | Some e \<Rightarrow> if isScene e then [e\<lparr>el_display := ''block''\<rparr>] else [])"
proof -
  have "visibleScenes (setActiveScene q doc) =
          (case find (\<lambda>e. el_id e = sceneId q) (hideScenes doc) of
             None \<Rightarrow> []
           | Some e \<Rightarrow> if isScene e then [e\<lparr>el_display := ''block''\<rparr>] else [])"
    unfolding setActiveScene_def
    by (rule visibleScenes_showById) (rule visibleScenes_hideScenes)
  then show ?thesis
    by (simp add: find_hideScenes getElementById_def split: option.splits)
qed

lemma sceneId_cases:
  "sceneId q =
     (if includes_str (toLowerCase q) ''scene2'' then ''scene2''
      else if includes_str (toLowerCase q) ''scene3'' then ''scene3''
      else ''scene1'')"
  by (simp add: sceneId_def Let_def)

section \<open>Claims about the scene selector\<close>

text \<open>
  C3, as amended. The scene id is chosen by substring containment in the lower-cased
  query string, \<open>scene2\<close> before \<open>scene3\<close>, with \<open>scene1\<close> as the default. Every
  slide container is hidden first; then the first element carrying the chosen id, if the
  document has one, is displayed. So the visible slide containers are exactly that element
  when it exists and is a slide container, and none otherwise.
\<close>

theorem setActiveScene_precedence:
  "sceneId q =
     (if (\<exists>p r. toLowerCase q = p @ ''scene2'' @ r) then ''scene2''
      else if (\<exists>p r. toLowerCase q = p @ ''scene3'' @ r) then ''scene3''
      else ''scene1'')
   \<and> visibleScenes (setActiveScene q doc) =
       (case getElementById (sceneId q) doc of
          None \<Rightarrow> []
        | Some e \<Rightarrow> if isScene e then [e\<lparr>el_display := ''block''\<rparr>] else [])"
  using sceneId_cases [of q] visibleScenes_setActiveScene [of q doc]
  by (simp only: includes_iff)

text \<open>
  C3 as stated fails: with \<open>?scene2\<close> in the URL and a deck that has no element of id
  \<open>scene2\<close>, the selected scene is \<open>scene2\<close> and no slide container is visible.
\<close>

theorem setActiveScene_none_visible:
  "sceneId ''?scene2'' = ''scene2''
   \<and> length (visibleScenes (setActiveScene ''?scene2'' deckWithoutScene2)) \<noteq> 1"
  by code_simp

text \<open>
  C10. When no element of the document has the selected scene id, \<open>setActiveScene\<close>
  (a total function: no step of it can throw) only hides the slide containers, and no
  slide container is visible afterwards.
\<close>

theorem setActiveScene_missing_target:
  assumes "getElementById (sceneId q) doc = None"
  shows "setActiveScene q doc = hideScenes doc \<and> visibleScenes (setActiveScene q doc) = []"
proof -
  have "find (\<lambda>e. el_id e = sceneId q) (hideScenes doc) = None"
    using assms by (simp add: find_hideScenes getElementById_def)
  then have "setActiveScene q doc = hideScenes doc"
    unfolding setActiveScene_def by (rule showById_absent)
  then show ?thesis by (simp add: visibleScenes_hideScenes)
qed

theorem setActiveScene_missing_target_witness:
  "getElementById (sceneId ''?Scene3&x=1'') [\<lparr>el_id = ''scene1'', el_classes = [''scene''], el_display = ''block''\<rparr>] = None
   \<and> setActiveScene ''?Scene3&x=1'' [\<lparr>el_id = ''scene1'', el_classes = [''scene''], el_display = ''block''\<rparr>]
       = hideScenes [\<lparr>el_id = ''scene1'', el_classes = [''scene''], el_display = ''block''\<rparr>]
   \<and> visibleScenes (setActiveScene ''?Scene3&x=1''
         [\<lparr>el_id = ''scene1'', el_classes = [''scene''], el_display = ''block''\<rparr>]) = []"
proof -
  have h: "getElementById (sceneId ''?Scene3&x=1'')
             [\<lparr>el_id = ''scene1'', el_classes = [''scene''], el_display = ''block''\<rparr>] = None"
    by code_simp
  note r = setActiveScene_missing_target [OF h]
  show ?thesis
    by (intro conjI h conjunct1 [OF r] conjunct2 [OF r])
qed

section \<open>Facts about the shuffle\<close>

lemma mset_binaryInsertionSort:
  "mset (binaryInsertionSort rnd n placed rest) = mset placed + mset rest"
proof (induction rest arbitrary: n placed)
  case Nil
  then show ?case by simp
next
  case (Cons pivot rest)
  obtain left n' where f: "findSlot rnd n 0 (length placed) = (left, n')"
    by (cases "findSlot rnd n 0 (length placed)")
  have "mset (take left placed @ pivot # drop left placed) = add_mset pivot (mset placed)"
    by (metis append_take_drop_id mset.simps(2) mset_append union_mset_add_mset_right)
  with f Cons.IH [of n' "take left placed @ pivot # drop left placed"] show ?case by simp
qed

lemma mset_sortRandom: "mset (sortRandom rnd xs) = mset xs"
proof (cases "length xs < 2")
  case True
  then show ?thesis by (simp add: sortRandom_def)
next
  case False
  obtain runLength n where c: "countRun rnd (rnd 0 - 1 / 2 < 0) 1 2 (length xs - 2) = (runLength, n)"
    by (cases "countRun rnd (rnd 0 - 1 / 2 < 0) 1 2 (length xs - 2)")
  have "mset (take runLength xs) + mset (drop runLength xs) = mset xs"
    by (metis append_take_drop_id mset_append)
  then show ?thesis
    using False c by (simp add: sortRandom_def Let_def mset_binaryInsertionSort)
qed

lemma length_sortRandom: "length (sortRandom rnd xs) = length xs"
  using mset_sortRandom [of rnd xs] by (metis size_mset)

lemma set_sortRandom: "set (sortRandom rnd xs) = set xs"
  using mset_sortRandom [of rnd xs] by (metis set_mset_mset)

text \<open>
  With every draw below one half each comparison is negative: the whole array is one
  descending run and is reversed. With every draw above one half no comparison is negative:
  the whole array is one ascending run and stays as it is.
\<close>

lemma countRun_descending:
  "countRun (\<lambda>_. 0) True n runLength m = (runLength + m, n + m)"
  by (induction m arbitrary: n runLength) simp_all

lemma countRun_ascending:
  "countRun (\<lambda>_. 3 / 4) False n runLength m = (runLength + m, n + m)"
  by (induction m arbitrary: n runLength) simp_all

lemma sortRandom_low: "sortRandom (\<lambda>_. 0) xs = rev xs"
proof (cases "length xs < 2")
  case True
  then have "rev xs = xs" by (cases xs) (auto simp: Suc_less_eq2)
  with True show ?thesis by (simp add: sortRandom_def)
next
  case False
  then show ?thesis by (simp add: sortRandom_def countRun_descending)
qed

lemma sortRandom_high: "sortRandom (\<lambda>_. 3 / 4) xs = xs"
  by (simp add: sortRandom_def countRun_ascending)

text \<open>
  On three elements the sort makes at most four comparator calls, and the outcome is this
  function of their signs.
\<close>

lemma findSlot_done: "findSlot rnd n k k = (k, n)"
  by (simp add: findSlot.simps)

lemma findSlot_one:
  "findSlot rnd n 0 (Suc 0) = (if rnd n < 1 / 2 then (0, Suc n) else (Suc 0, Suc n))"
  by (subst findSlot.simps) (simp add: findSlot_done Let_def)

lemma findSlot_two:
  "findSlot rnd n 0 (Suc (Suc 0)) =
     (if rnd n < 1 / 2 then findSlot rnd (Suc n) 0 (Suc 0) else (Suc (Suc 0), Suc n))"
  by (subst findSlot.simps) (simp add: findSlot_done Let_def)

lemma sortRandom_three:
  "sortRandom rnd [a, b, c] =
     (if rnd 0 < 1 / 2
      then (if rnd 1 < 1 / 2 then [c, b, a]
            else if rnd 2 < 1 / 2 then (if rnd 3 < 1 / 2 then [c, b, a] else [b, c, a])
            else [b, a, c])
      else (if rnd 1 < 1 / 2
            then (if rnd 2 < 1 / 2 then (if rnd 3 < 1 / 2 then [c, a, b] else [a, c, b])
                  else [a, b, c])
            else [a, b, c]))"
proof -
  have n: "(2::nat) = Suc (Suc 0)" "(3::nat) = Suc (Suc (Suc 0))" by simp_all
  show ?thesis
    by (simp add: sortRandom_def Let_def findSlot_two findSlot_one n not_less)
qed

lemma permutations_of_three:
  assumes "mset bs = mset [a, b, c]" "distinct [a, b, c]"
  shows "bs \<in> {[a, b, c], [a, c, b], [b, a, c], [b, c, a], [c, a, b], [c, b, a]}"
proof -
  have "length bs = length [a, b, c]" using assms(1) by (metis size_mset)
  then have len: "length bs = 3" by simp
  then obtain x y z where bs: "bs = [x, y, z]"
    by (cases bs; cases "tl bs"; cases "tl (tl bs)") auto
  have "set bs = set [a, b, c]" using assms(1) by (metis set_mset_mset)
  then have mem: "x \<in> {a, b, c}" "y \<in> {a, b, c}" "z \<in> {a, b, c}" using bs by auto
  have "distinct bs" using assms by (metis mset_eq_imp_distinct_iff)
  then have ne: "x \<noteq> y" "x \<noteq> z" "y \<noteq> z" using bs by auto
  show ?thesis unfolding bs using mem ne by blast
qed

section \<open>Facts about the quiz\<close>

lemma quizData_length: "length quizData = 5" by (simp add: quizData_def)

lemma quizData_shape:
  "q \<in> set quizData \<Longrightarrow> length (choices q) = 3 \<and> length (filter correct (choices q)) = 1"
  by (auto simp: quizData_def)

lemma quizData_distinct: "q \<in> set quizData \<Longrightarrow> distinct (choices q)"
  by (auto simp: quizData_def)

lemma renderCard_total:
  assumes "idx < length quizData" "quizCard s \<noteq> None"
  shows "\<exists>s'. renderCard idx rnd s = Inr s'"
  using assms by (auto simp: renderCard_def Let_def split: option.splits)

lemma renderCard_session:
  assumes "renderCard idx rnd s = Inr s'"
  shows "\<not> answered s'" "currentIndex s' = currentIndex s" "score s' = score s"
    "scoreboard s' = scoreboard s" "idx < length quizData" "quizCard s \<noteq> None"
  using assms by (auto simp: renderCard_def Let_def split: option.splits if_splits)

lemma renderCard_backChoices:
  assumes "renderCard idx rnd s = Inr s'"
  shows "backChoices s' = map_option (\<lambda>_. createChoices idx rnd) (backChoices s)"
  using assms
  by (auto simp: renderCard_def Let_def backChoices_def split: option.splits if_splits)

lemma backChoices_quizCard: "backChoices s = Some bs \<Longrightarrow> quizCard s \<noteq> None"
  by (auto simp: backChoices_def split: option.splits)

lemma length_createChoices: "i < 5 \<Longrightarrow> length (createChoices i rnd) = 3"
  using quizData_shape [of "quizData ! i"]
  by (simp add: createChoices_def length_sortRandom quizData_length)

lemma correct_createChoices:
  assumes "i < 5"
  shows "length (filter (\<lambda>b. dataset_correct b = ''true'') (createChoices i rnd)) = 1"
proof -
  let ?cs = "choices (quizData ! i)"
  have flag: "(\<lambda>b. dataset_correct b = ''true'') \<circ> createButton = correct"
    by (auto simp: createButton_def fun_eq_iff)
  have "length (filter correct (sortRandom rnd ?cs)) = size (filter_mset correct (mset (sortRandom rnd ?cs)))"
    by (metis mset_filter size_mset)
  also have "\<dots> = length (filter correct ?cs)"
    by (metis mset_sortRandom mset_filter size_mset)
  also have "\<dots> = 1"
    using quizData_shape [of "quizData ! i"] assms by (simp add: quizData_length)
  finally show ?thesis
    by (simp add: createChoices_def filter_map flag)
qed

lemma onSelectChoice_answered: "answered s \<Longrightarrow> onSelectChoice k s = s"
  by (simp add: onSelectChoice_def)

lemma onSelectChoice_first:
  assumes "\<not> answered s" "backChoices s = Some bs" "k < length bs"
  shows "answered (onSelectChoice k s)"
    "score (onSelectChoice k s) = score s + (if dataset_correct (bs ! k) = ''true'' then 1 else 0)"
    "currentIndex (onSelectChoice k s) = currentIndex s"
    "scoreboard (onSelectChoice k s) = scoreboard s"
    "quizCard (onSelectChoice k s) \<noteq> None"
  using assms
  by (auto simp: onSelectChoice_def backChoices_def Let_def split: option.splits)

lemma unitInterval_low: "unitInterval (\<lambda>_. 0)"
  by (simp add: unitInterval_def)

lemma unitInterval_high: "unitInterval (\<lambda>_. 3 / 4)"
  by (simp add: unitInterval_def)

lemma createChoices_low:
  "createChoices i (\<lambda>_. 0) = rev (map createButton (choices (quizData ! i)))"
  by (simp add: createChoices_def sortRandom_low rev_map)

lemma createChoices_high:
  "createChoices i (\<lambda>_. 3 / 4) = map createButton (choices (quizData ! i))"
  by (simp add: createChoices_def sortRandom_high)

lemma rev_differs: "hd xs \<noteq> last xs \<Longrightarrow> rev xs \<noteq> xs"
  by (metis hd_rev)

lemma quizData_index: "i < 5 \<Longrightarrow> quizData ! i \<in> set quizData"
  by (simp add: quizData_length)

lemma first_choice_correct:
  "q \<in> set quizData \<Longrightarrow> correct (hd (choices q)) \<and> \<not> correct (last (choices q))"
  by (auto simp: quizData_def)

lemma buttons_reversed_differ:
  assumes "i < 5"
  shows "rev (map createButton (choices (quizData ! i))) \<noteq> map createButton (choices (quizData ! i))"
proof -
  let ?cs = "choices (quizData ! i)"
  have len: "length ?cs = 3"
    using quizData_shape [OF quizData_index [OF assms]] by simp
  then have ne: "?cs \<noteq> []" by auto
  have "dataset_correct (createButton (hd ?cs)) \<noteq> dataset_correct (createButton (last ?cs))"
    using first_choice_correct [OF quizData_index [OF assms]] by (simp add: createButton_def)
  then have "hd (map createButton ?cs) \<noteq> last (map createButton ?cs)"
    using ne by (auto simp: hd_map last_map)
  then show ?thesis by (rule rev_differs)
qed

lemma three_choices:
  assumes "i < 5"
  obtains a b c where "choices (quizData ! i) = [a, b, c]" "distinct [a, b, c]"
proof -
  have q: "quizData ! i \<in> set quizData" using assms by (rule quizData_index)
  have len: "length (choices (quizData ! i)) = 3" using quizData_shape [OF q] by simp
  then obtain a b c where abc: "choices (quizData ! i) = [a, b, c]"
    by (cases "choices (quizData ! i)"; cases "tl (choices (quizData ! i))";
        cases "tl (tl (choices (quizData ! i)))") auto
  moreover have "distinct (choices (quizData ! i))" using quizData_distinct [OF q] .
  ultimately show ?thesis using that by simp
qed

lemma createButton_inj: "inj createButton"
  by (rule injI) (auto simp: createButton_def split: if_splits)

lemma every_order_drawn:
  assumes "i < 5" "mset bs = mset (map createButton (choices (quizData ! i)))"
  shows "\<exists>r. unitInterval r \<and> createChoices i r = bs"
proof -
  obtain a b c where abc: "choices (quizData ! i) = [a, b, c]" "distinct [a, b, c]"
    using three_choices [OF assms(1)] by blast
  let ?A = "createButton a" and ?B = "createButton b" and ?C = "createButton c"
  have d: "distinct [?A, ?B, ?C]"
    using abc(2) createButton_inj by (auto dest: injD)
  have m: "mset bs = mset [?A, ?B, ?C]" using assms(2) abc(1) by simp
  have cc: "\<And>r. createChoices i r = map createButton (sortRandom r [a, b, c])"
    by (simp add: createChoices_def abc(1))
  consider "bs = [?A, ?B, ?C]" | "bs = [?A, ?C, ?B]" | "bs = [?B, ?A, ?C]"
    | "bs = [?B, ?C, ?A]" | "bs = [?C, ?A, ?B]" | "bs = [?C, ?B, ?A]"
    using permutations_of_three [OF m d] by auto
  then show ?thesis
  proof cases
    case 1
    let ?r = "\<lambda>k::nat. 3 / 4 :: rat"
    have "unitInterval ?r" by (simp add: unitInterval_def)
    moreover have "createChoices i ?r = bs" using 1 by (simp add: cc sortRandom_three)
    ultimately show ?thesis by blast
  next
    case 2
    let ?r = "\<lambda>k::nat. if k = 1 \<or> k = 2 then 0 else 3 / 4 :: rat"
    have "unitInterval ?r" by (simp add: unitInterval_def)
    moreover have "createChoices i ?r = bs" using 2 by (simp add: cc sortRandom_three)
    ultimately show ?thesis by blast
  next
    case 3
    let ?r = "\<lambda>k::nat. if k = 0 then 0 else 3 / 4 :: rat"
    have "unitInterval ?r" by (simp add: unitInterval_def)
    moreover have "createChoices i ?r = bs" using 3 by (simp add: cc sortRandom_three)
    ultimately show ?thesis by blast
  next
    case 4
    let ?r = "\<lambda>k::nat. if k = 0 \<or> k = 2 then 0 else 3 / 4 :: rat"
    have "unitInterval ?r" by (simp add: unitInterval_def)
    moreover have "createChoices i ?r = bs" using 4 by (simp add: cc sortRandom_three)
    ultimately show ?thesis by blast
  next
    case 5
    let ?r = "\<lambda>k::nat. if k = 0 then 3 / 4 else 0 :: rat"
    have "unitInterval ?r" by (simp add: unitInterval_def)
    moreover have "createChoices i ?r = bs" using 5 by (simp add: cc sortRandom_three)
    ultimately show ?thesis by blast
  next
    case 6
    let ?r = "\<lambda>k::nat. 0 :: rat"
    have "unitInterval ?r" by (simp add: unitInterval_def)
    moreover have "createChoices i ?r = bs" using 6 by (simp add: cc sortRandom_three)
    ultimately show ?thesis by blast
  qed
qed

section \<open>Claims about rendering a card\<close>

text \<open>
  C4. The quiz has five questions, each with three choices of which exactly one is correct.
  For every index \<open>i\<close> below 5 and whatever \<open>Math.random\<close> returns,
  \<open>renderCard(i)\<close> creates three controls, exactly one of them with
  \<open>dataset.correct = 'true'\<close>; on a page with a choice container the render succeeds
  and the container then holds exactly these controls.
\<close>

theorem renderCard_three_controls:
  assumes "i < 5"
  shows "length quizData = 5
    \<and> (\<forall>q \<in> set quizData. length (choices q) = 3 \<and> length (filter correct (choices q)) = 1)
    \<and> length (createChoices i rnd) = 3
    \<and> length (filter (\<lambda>b. dataset_correct b = ''true'') (createChoices i rnd)) = 1
    \<and> (backChoices s \<noteq> None \<longrightarrow>
         (\<exists>s'. renderCard i rnd s = Inr s' \<and> backChoices s' = Some (createChoices i rnd)))"
proof (intro conjI ballI impI)
  show "length quizData = 5" by (rule quizData_length)
  show "length (createChoices i rnd) = 3" using assms by (rule length_createChoices)
  show "length (filter (\<lambda>b. dataset_correct b = ''true'') (createChoices i rnd)) = 1"
    using assms by (rule correct_createChoices)
next
  fix q assume "q \<in> set quizData"
  then show "length (choices q) = 3" "length (filter correct (choices q)) = 1"
    using quizData_shape by auto
next
  assume bc: "backChoices s \<noteq> None"
  then have "quizCard s \<noteq> None" using backChoices_quizCard by auto
  then obtain s' where s': "renderCard i rnd s = Inr s'"
    using renderCard_total [of i s rnd] assms by (auto simp: quizData_length)
  with bc renderCard_backChoices [OF s'] show
    "\<exists>s'. renderCard i rnd s = Inr s' \<and> backChoices s' = Some (createChoices i rnd)"
    by auto
qed

theorem renderCard_three_controls_witness:
  "(2::nat) < 5
   \<and> length (createChoices 2 (\<lambda>_. 3 / 4)) = 3
   \<and> length (filter (\<lambda>b. dataset_correct b = ''true'') (createChoices 2 (\<lambda>_. 3 / 4))) = 1
   \<and> backChoices quizPage \<noteq> None
   \<and> (\<exists>s'. renderCard 2 (\<lambda>_. 3 / 4) quizPage = Inr s'
            \<and> backChoices s' = Some (createChoices 2 (\<lambda>_. 3 / 4)))"
proof -
  have h: "(2::nat) < 5" by simp
  have b: "backChoices quizPage \<noteq> None" by (simp add: backChoices_def quizPage_def)
  note r = renderCard_three_controls [OF h, of "\<lambda>_. 3 / 4" quizPage]
  show ?thesis using h b r by blast
qed

text \<open>
  C9. For every question the controls that \<open>renderCard\<close> creates are a permutation of
  the question's choices, and which permutation is decided by the values
  \<open>Math.random\<close> returns, not by the question: every one of the six orders of the three
  controls is produced by some draws, so two runs can give different orders, and some run
  gives an order other than the defined one.
\<close>

theorem renderCard_shuffles:
  assumes "i < 5"
  shows "mset (createChoices i rnd) = mset (map createButton (choices (quizData ! i)))
    \<and> (\<forall>bs. mset bs = mset (map createButton (choices (quizData ! i))) \<longrightarrow>
          (\<exists>r. unitInterval r \<and> createChoices i r = bs))
    \<and> (\<exists>r1 r2. unitInterval r1 \<and> unitInterval r2 \<and> createChoices i r1 \<noteq> createChoices i r2)
    \<and> (\<exists>r. unitInterval r \<and> createChoices i r \<noteq> map createButton (choices (quizData ! i)))"
proof (intro conjI allI impI)
  show "mset (createChoices i rnd) = mset (map createButton (choices (quizData ! i)))"
    by (simp add: createChoices_def mset_sortRandom)
  have d: "createChoices i (\<lambda>_. 0) \<noteq> map createButton (choices (quizData ! i))"
    using buttons_reversed_differ [OF assms] by (simp add: createChoices_low)
  then have "createChoices i (\<lambda>_. 0) \<noteq> createChoices i (\<lambda>_. 3 / 4)"
    by (simp add: createChoices_high)
  then show "\<exists>r1 r2. unitInterval r1 \<and> unitInterval r2 \<and> createChoices i r1 \<noteq> createChoices i r2"
    using unitInterval_low unitInterval_high by blast
  show "\<exists>r. unitInterval r \<and> createChoices i r \<noteq> map createButton (choices (quizData ! i))"
    using d unitInterval_low by blast
next
  fix bs :: "button list"
  assume "mset bs = mset (map createButton (choices (quizData ! i)))"
  with assms show "\<exists>r. unitInterval r \<and> createChoices i r = bs"
    by (rule every_order_drawn)
qed

theorem renderCard_shuffles_witness:
  "(0::nat) < 5
   \<and> mset (map createButton [choices (quizData ! 0) ! 1, choices (quizData ! 0) ! 2,
                               choices (quizData ! 0) ! 0])
       = mset (map createButton (choices (quizData ! 0)))
   \<and> (\<exists>r. unitInterval r
          \<and> createChoices 0 r
              = map createButton [choices (quizData ! 0) ! 1, choices (quizData ! 0) ! 2,
                                  choices (quizData ! 0) ! 0])
   \<and> mset (createChoices 0 (\<lambda>i. if i = 1 then 3 / 4 else 0))
       = mset (map createButton (choices (quizData ! 0)))
   \<and> (\<exists>r1 r2. unitInterval r1 \<and> unitInterval r2 \<and> createChoices 0 r1 \<noteq> createChoices 0 r2)
   \<and> (\<exists>r. unitInterval r \<and> createChoices 0 r \<noteq> map createButton (choices (quizData ! 0)))"
proof -
  have h: "(0::nat) < 5" by simp
  have p: "mset (map createButton [choices (quizData ! 0) ! 1, choices (quizData ! 0) ! 2,
                               choices (quizData ! 0) ! 0])
       = mset (map createButton (choices (quizData ! 0)))"
    by (simp add: quizData_def)
  note r = renderCard_shuffles [OF h, of "\<lambda>i. if i = 1 then 3 / 4 else 0"]
  show ?thesis using h p r by blast
qed

section \<open>Facts about the handlers\<close>

lemma createChoices_nth:
  assumes "i < 5" "k < length (createChoices i rnd)"
  shows "\<exists>c \<in> set (choices (quizData ! i)). createChoices i rnd ! k = createButton c"
proof -
  let ?xs = "sortRandom rnd (choices (quizData ! i))"
  have k: "k < length ?xs" using assms(2) by (simp add: createChoices_def)
  then have "?xs ! k \<in> set (choices (quizData ! i))"
    using set_sortRandom [of rnd "choices (quizData ! i)"] nth_mem by blast
  moreover have "createChoices i rnd ! k = createButton (?xs ! k)"
    using k by (simp add: createChoices_def)
  ultimately show ?thesis by blast
qed

lemma createButton_flag: "dataset_correct (createButton c) = ''true'' \<longleftrightarrow> correct c"
  by (simp add: createButton_def)

lemma onSelectChoice_explanations:
  assumes "\<not> answered s" "backChoices s = Some bs" "k < length bs"
  shows "explanationNodes (onSelectChoice k s) = explanationNodes s @ [dataset_message (bs ! k)]"
  using assms
  by (auto simp: onSelectChoice_def backChoices_def explanationNodes_def Let_def
           split: option.splits)

lemma quizPage_card: "quizCard quizPage \<noteq> None"
  by (simp add: quizPage_def)

lemma firstCard_render: "renderCard 0 (\<lambda>_. 0) quizPage = Inr firstCard"
proof -
  obtain s' where "renderCard 0 (\<lambda>_. 0) quizPage = Inr s'"
    using renderCard_total [of 0 quizPage "\<lambda>_. 0"] quizPage_card
    by (auto simp: quizData_length)
  then show ?thesis by (simp add: firstCard_def)
qed

lemma firstCard_backChoices: "backChoices firstCard = Some (createChoices 0 (\<lambda>_. 0))"
  using renderCard_backChoices [OF firstCard_render]
  by (simp add: backChoices_def quizPage_def)

lemma particles_cleared:
  "particles (s\<lparr>scoreboard := map_option
      (\<lambda>sb. sb\<lparr>sb_display := d, confettiContainer := map_option (\<lambda>_. []) (confettiContainer sb)\<rparr>)
      (scoreboard s)\<rparr>) = []"
  by (auto simp: particles_def split: option.splits)

lemma renderCard_frontText:
  assumes "renderCard idx rnd s = Inr s'"
  shows "frontText s' = map_option (\<lambda>_. scenario (quizData ! idx)) (frontText s)"
  using assms
  by (auto simp: renderCard_def Let_def frontText_def split: option.splits if_splits)

lemma renderCard_explanations:
  assumes "renderCard idx rnd s = Inr s'"
  shows "explanationNodes s' = drop 1 (explanationNodes s)"
  using assms
  by (auto simp: renderCard_def Let_def explanationNodes_def split: option.splits if_splits)

lemma renderCard_particles:
  assumes "renderCard idx rnd s = Inr s'"
  shows "particles s' = particles s"
  using renderCard_session(4) [OF assms] by (simp add: particles_def)

section \<open>Claims about selecting and restarting\<close>

text \<open>
  C2. On a card that \<open>renderCard\<close> has just rendered, the first selection of a control
  sets \<open>answered\<close>, adds 1 to the score exactly when the control was made from a correct
  choice of the question (and leaves it as it is otherwise), and appends one explanation
  node. Any further selection on that card returns the state unchanged, so the score is
  not modified and no second explanation node is appended.
\<close>

theorem onSelectChoice_at_most_once:
  assumes "renderCard i rnd s0 = Inr s" "backChoices s = Some bs" "k < length bs"
  shows "answered (onSelectChoice k s)
    \<and> (\<exists>c \<in> set (choices (quizData ! i)). bs ! k = createButton c
          \<and> score (onSelectChoice k s) = score s + (if correct c then 1 else 0))
    \<and> explanationNodes (onSelectChoice k s) = explanationNodes s @ [dataset_message (bs ! k)]
    \<and> (\<forall>j. onSelectChoice j (onSelectChoice k s) = onSelectChoice k s)"
proof -
  have na: "\<not> answered s" using assms(1) by (rule renderCard_session)
  have i: "i < 5" using renderCard_session(5) [OF assms(1)] by (simp add: quizData_length)
  have bs: "bs = createChoices i rnd"
    using renderCard_backChoices [OF assms(1)] assms(2) by (cases "backChoices s0") auto
  obtain c where c: "c \<in> set (choices (quizData ! i))" "bs ! k = createButton c"
    using createChoices_nth [OF i, of k rnd] assms(3) bs by auto
  have a: "answered (onSelectChoice k s)"
    using na assms(2,3) by (rule onSelectChoice_first)
  have "score (onSelectChoice k s) = score s + (if correct c then 1 else 0)"
    using onSelectChoice_first(2) [OF na assms(2,3)] c(2) by (simp add: createButton_flag)
  with c have "\<exists>c \<in> set (choices (quizData ! i)). bs ! k = createButton c
      \<and> score (onSelectChoice k s) = score s + (if correct c then 1 else 0)"
    by blast
  moreover have "\<forall>j. onSelectChoice j (onSelectChoice k s) = onSelectChoice k s"
    using a by (simp add: onSelectChoice_answered)
  ultimately show ?thesis
    using a onSelectChoice_explanations [OF na assms(2,3)] by blast
qed

theorem onSelectChoice_at_most_once_witness:
  "renderCard 0 (\<lambda>_. 0) quizPage = Inr firstCard
   \<and> backChoices firstCard = Some (createChoices 0 (\<lambda>_. 0))
   \<and> 1 < length (createChoices 0 (\<lambda>_. 0))
   \<and> answered (onSelectChoice 1 firstCard)
   \<and> (\<exists>c \<in> set (choices (quizData ! 0)). createChoices 0 (\<lambda>_. 0) ! 1 = createButton c
         \<and> score (onSelectChoice 1 firstCard) = score firstCard + (if correct c then 1 else 0))
   \<and> explanationNodes (onSelectChoice 1 firstCard)
       = explanationNodes firstCard @ [dataset_message (createChoices 0 (\<lambda>_. 0) ! 1)]
   \<and> (\<forall>j. onSelectChoice j (onSelectChoice 1 firstCard) = onSelectChoice 1 firstCard)"
proof -
  have len: "1 < length (createChoices 0 (\<lambda>_. 0))"
    by (simp add: length_createChoices)
  note r = onSelectChoice_at_most_once [OF firstCard_render firstCard_backChoices len]
  show ?thesis
    using firstCard_render firstCard_backChoices len r by blast
qed

text \<open>
  C7. On a page that has the quiz card, from every session state (any index, any score,
  answered or not) \<open>restartQuiz\<close> returns normally with index 0, score 0 and
  \<open>answered\<close> false, the scoreboard hidden and the confetti container emptied, and with
  question 0 rendered anew: its scenario on the front face, its freshly shuffled controls
  in the choice container, the explanation of the previous card removed, the card without
  its \<open>correct\<close>, \<open>wrong\<close> and \<open>flipped\<close> classes, the advance control hidden and
  labelled Next, and the timer of the notification set again. Nothing else changes.
\<close>

theorem restartQuiz_resets:
  assumes "quizCard s = Some qc"
  shows "\<exists>s'. restartQuiz rnd s = Inr s'
    \<and> currentIndex s' = 0 \<and> score s' = 0 \<and> \<not> answered s'
    \<and> scoreboard s' = map_option
         (\<lambda>sb. sb\<lparr>sb_display := ''none'',
                  confettiContainer := map_option (\<lambda>_. []) (confettiContainer sb)\<rparr>)
         (scoreboard s)
    \<and> particles s' = []
    \<and> quizCard s' = Some (qc
         \<lparr>front := map_option (\<lambda>_. scenario (quizData ! 0)) (front qc),
          backFace := map_option
            (\<lambda>b. b\<lparr>choice_container := map_option (\<lambda>_. createChoices 0 rnd) (choice_container b),
                   explanations := drop 1 (explanations b)\<rparr>)
            (backFace qc),
          card_classList :=
            filter (\<lambda>c. c \<noteq> ''correct'' \<and> c \<noteq> ''wrong'' \<and> c \<noteq> ''flipped'')
              (card_classList qc)\<rparr>)
    \<and> frontText s' = map_option (\<lambda>_. scenario (quizData ! 0)) (frontText s)
    \<and> backChoices s' = map_option (\<lambda>_. createChoices 0 rnd) (backChoices s)
    \<and> explanationNodes s' = drop 1 (explanationNodes s)
    \<and> nextContainer s' = map_option
         (\<lambda>n. n\<lparr>nc_display := ''none'', nextButton := map_option (\<lambda>_. ''Next'') (nextButton n)\<rparr>)
         (nextContainer s)
    \<and> notificationEl s' = map_option (\<lambda>n. n\<lparr>n_timeout := True\<rparr>) (notificationEl s)"
proof -
  let ?t = "s\<lparr>currentIndex := 0, score := 0, answered := False,
               scoreboard := map_option
                 (\<lambda>sb. sb\<lparr>sb_display := ''none'',
                          confettiContainer := map_option (\<lambda>_. []) (confettiContainer sb)\<rparr>)
                 (scoreboard s)\<rparr>"
  have "quizCard ?t \<noteq> None" using assms by simp
  then obtain s' where s': "renderCard 0 rnd ?t = Inr s'"
    using renderCard_total [of 0 ?t rnd] by (auto simp: quizData_length)
  have r: "restartQuiz rnd s = Inr s'" using s' by (simp add: restartQuiz_def)
  have p: "particles ?t = []"
    by (auto simp: particles_def split: option.splits)
  have f: "frontText ?t = frontText s" by (simp add: frontText_def)
  have b: "backChoices ?t = backChoices s" by (simp add: backChoices_def)
  have e: "explanationNodes ?t = explanationNodes s" by (simp add: explanationNodes_def)
  have cl: "removeAll ''flipped'' (removeAll ''wrong'' (removeAll ''correct'' (card_classList qc)))
      = filter (\<lambda>c. c \<noteq> ''correct'' \<and> c \<noteq> ''wrong'' \<and> c \<noteq> ''flipped'') (card_classList qc)"
    by (induction "card_classList qc") (auto simp: removeAll_filter_not_eq intro: filter_cong)
  have qc: "quizCard s' = Some (qc
         \<lparr>front := map_option (\<lambda>_. scenario (quizData ! 0)) (front qc),
          backFace := map_option
            (\<lambda>b. b\<lparr>choice_container := map_option (\<lambda>_. createChoices 0 rnd) (choice_container b),
                   explanations := drop 1 (explanations b)\<rparr>)
            (backFace qc),
          card_classList :=
            filter (\<lambda>c. c \<noteq> ''correct'' \<and> c \<noteq> ''wrong'' \<and> c \<noteq> ''flipped'')
              (card_classList qc)\<rparr>)"
    using s' assms unfolding cl [symmetric]
    by (auto simp: renderCard_def Let_def quizData_length)
  have nx: "nextContainer s' = map_option
         (\<lambda>n. n\<lparr>nc_display := ''none'', nextButton := map_option (\<lambda>_. ''Next'') (nextButton n)\<rparr>)
         (nextContainer s)"
    using s' assms by (auto simp: renderCard_def Let_def quizData_length)
  have nt: "notificationEl s' = map_option (\<lambda>n. n\<lparr>n_timeout := True\<rparr>) (notificationEl s)"
  proof -
    have "renderNotification 0 = (\<lambda>n. n\<lparr>n_timeout := True\<rparr>)"
      by (simp add: renderNotification_def fun_eq_iff)
    then show ?thesis
      using s' assms by (auto simp: renderCard_def Let_def quizData_length)
  qed
  show ?thesis
    using r renderCard_session(1-4) [OF s'] renderCard_particles [OF s'] p
      renderCard_frontText [OF s'] renderCard_backChoices [OF s'] f b
      renderCard_explanations [OF s'] e qc nx nt
    by (intro exI [of _ s']) simp
qed

theorem restartQuiz_resets_witness:
  "quizCard finishedPage = Some
     \<lparr>card_classList = [''quiz-card'', ''flipped'', ''wrong''],
      front = Some (scenario (quizData ! 4)),
      backFace = Some
        \<lparr>choice_container = Some
           [(createButton (choices (quizData ! 4) ! 1))
              \<lparr>disabled := True, classList := [''choice'', ''wrong'']\<rparr>,
            (createButton (choices (quizData ! 4) ! 0))
              \<lparr>disabled := True, classList := [''choice'', ''correct'']\<rparr>,
            (createButton (choices (quizData ! 4) ! 2))\<lparr>disabled := True\<rparr>],
         explanations = [message (choices (quizData ! 4) ! 1)]\<rparr>\<rparr>
   \<and> (\<exists>s'. restartQuiz (\<lambda>_. 3 / 4) finishedPage = Inr s'
        \<and> currentIndex s' = 0 \<and> score s' = 0 \<and> \<not> answered s'
        \<and> scoreboard s' = Some \<lparr>sb_display = ''none'', scoreText = Some ''Score: 3/5'',
                                 restartBtn = True, confettiContainer = Some []\<rparr>
        \<and> particles s' = []
        \<and> quizCard s' = Some
             \<lparr>card_classList = [''quiz-card''],
              front = Some (scenario (quizData ! 0)),
              backFace = Some \<lparr>choice_container = Some (createChoices 0 (\<lambda>_. 3 / 4)),
                               explanations = []\<rparr>\<rparr>
        \<and> createChoices 0 (\<lambda>_. 3 / 4) = map createButton (choices (quizData ! 0))
        \<and> nextContainer s' = Some \<lparr>nc_display = ''none'', nextButton = Some ''Next''\<rparr>
        \<and> notificationEl s' = Some
             \<lparr>n_classList = [''notifications'', ''hide''], n_display = ''none'',
              n_timeout = True, n_hideTimers = 0\<rparr>)"
proof -
  have h: "quizCard finishedPage = Some
     \<lparr>card_classList = [''quiz-card'', ''flipped'', ''wrong''],
      front = Some (scenario (quizData ! 4)),
      backFace = Some
        \<lparr>choice_container = Some
           [(createButton (choices (quizData ! 4) ! 1))
              \<lparr>disabled := True, classList := [''choice'', ''wrong'']\<rparr>,
            (createButton (choices (quizData ! 4) ! 0))
              \<lparr>disabled := True, classList := [''choice'', ''correct'']\<rparr>,
            (createButton (choices (quizData ! 4) ! 2))\<lparr>disabled := True\<rparr>],
         explanations = [message (choices (quizData ! 4) ! 1)]\<rparr>\<rparr>"
    by (simp add: finishedPage_def)
  note r = restartQuiz_resets [OF h, of "\<lambda>_. 3 / 4"]
  have rest: "scoreboard finishedPage = Some
        \<lparr>sb_display = ''flex'', scoreText = Some ''Score: 3/5'', restartBtn = True,
         confettiContainer = Some [confettiPiece 0 0 0 0 0]\<rparr>"
    "nextContainer finishedPage = Some \<lparr>nc_display = ''block'', nextButton = Some ''Finish''\<rparr>"
    "notificationEl finishedPage = Some
        \<lparr>n_classList = [''notifications'', ''hide''], n_display = ''none'',
         n_timeout = False, n_hideTimers = 0\<rparr>"
    by (simp_all add: finishedPage_def)
  show ?thesis
    using h r rest by (auto simp: createChoices_high)
qed

section \<open>Claim about the guards\<close>

text \<open>
  C5 does not hold of the code. The quiz card is looked up as an optional element (the
  lookups through it on lines 205 to 207 and 330 and the binding on line 390 are
  guarded), yet \<open>renderCard\<close> uses it without a guard on lines 353 and 362. On a page
  whose quiz slide has no card, the first render at load throws, and so does every later
  render. In the same way \<open>runErrorSequence\<close> writes to the error overlay on line 183
  without a guard.
\<close>

theorem missing_card_throws:
  "loadQuiz (\<lambda>_. 0) None (nextContainer quizPage) (scoreboard quizPage) (notificationEl quizPage)
     = Inl TypeError
   \<and> restartQuiz (\<lambda>_. 0) (quizPage\<lparr>quizCard := None\<rparr>) = Inl TypeError
   \<and> runErrorSequence (scene1Page\<lparr>errorOverlayNew := None\<rparr>) = Inl TypeError"
  by (simp add: loadQuiz_def restartQuiz_def renderCard_def quizData_length
        runErrorSequence_def scene1Page_def disableButtons_def Let_def)

section \<open>Facts about a session\<close>

lemma confettiLoop_unfold:
  "i \<le> pieceCount \<Longrightarrow>
   confettiLoop rnd i children =
     children @ map (\<lambda>j. confettiPiece j (rnd (4 * j)) (rnd (4 * j + 1)) (rnd (4 * j + 2))
                       (rnd (4 * j + 3))) [i..<pieceCount]"
proof (induction rnd i children rule: confettiLoop.induct)
  case (1 rnd i children)
  show ?case
  proof (cases "i < pieceCount")
    case True
    then have "confettiLoop rnd i children =
        confettiLoop rnd (i + 1)
          (children @ [confettiPiece i (rnd (4 * i)) (rnd (4 * i + 1)) (rnd (4 * i + 2))
                         (rnd (4 * i + 3))])"
      by (subst confettiLoop.simps) simp
    also have "\<dots> = (children @ [confettiPiece i (rnd (4 * i)) (rnd (4 * i + 1)) (rnd (4 * i + 2))
                         (rnd (4 * i + 3))])
        @ map (\<lambda>j. confettiPiece j (rnd (4 * j)) (rnd (4 * j + 1)) (rnd (4 * j + 2))
                       (rnd (4 * j + 3))) [i + 1..<pieceCount]"
      using True by (intro "1.IH") simp_all
    finally show ?thesis using True by (simp add: upt_conv_Cons)
  next
    case False
    with "1.prems" have "i = pieceCount" by simp
    then show ?thesis by (subst confettiLoop.simps) simp
  qed
qed

lemma confettiLoop_length: "length (confettiLoop rnd 0 []) = 40"
  by (simp add: confettiLoop_unfold) (simp add: pieceCount_def)

lemma cardReady_backChoices:
  "cardReady i s \<Longrightarrow> \<exists>bs. backChoices s = Some bs \<and> length bs = 3"
  by (auto simp: cardReady_def split: option.splits)

lemma answer_then_render:
  assumes "cardReady i s" "Suc i < 5" "k < 3"
  shows "\<exists>s'. answerAndAdvance k rnd s = Inr s' \<and> cardReady (Suc i) s'
    \<and> score s' = score s + (if pickedCorrect k s then 1 else 0)
    \<and> scoreboard s' = scoreboard s"
proof -
  obtain bs where bs: "backChoices s = Some bs" "length bs = 3"
    using cardReady_backChoices [OF assms(1)] by auto
  have na: "\<not> answered s" and ci: "currentIndex s = i"
    using assms(1) by (auto simp: cardReady_def)
  have k: "k < length bs" using bs(2) assms(3) by simp
  let ?a = "onSelectChoice k s"
  note f = onSelectChoice_first [OF na bs(1) k]
  let ?a1 = "?a\<lparr>currentIndex := currentIndex ?a + 1\<rparr>"
  have "quizCard ?a1 \<noteq> None" using f(5) by simp
  then obtain s' where s': "renderCard (Suc i) rnd ?a1 = Inr s'"
    using renderCard_total [of "Suc i" ?a1 rnd] assms(2) by (auto simp: quizData_length)
  have g: "goToNext rnd ?a = Inr s'"
    using s' f(3) ci assms(2) by (simp add: goToNext_def Let_def quizData_length)
  have b1: "backChoices ?a1 \<noteq> None"
    using na bs k
    by (auto simp: onSelectChoice_def backChoices_def Let_def split: option.splits)
  have "backChoices s' = Some (createChoices (Suc i) rnd)"
    using renderCard_backChoices [OF s'] b1 by auto
  then have ready: "cardReady (Suc i) s'"
    using renderCard_session(1,2) [OF s'] f(3) ci assms(2)
    by (simp add: cardReady_def length_createChoices)
  have sc: "score s' = score s + (if pickedCorrect k s then 1 else 0)"
    using renderCard_session(3) [OF s'] f(2) bs(1) k by (simp add: pickedCorrect_def)
  have sb: "scoreboard s' = scoreboard s"
    using renderCard_session(4) [OF s'] f(4) by simp
  show ?thesis using g ready sc sb by (simp add: answerAndAdvance_def)
qed

lemma toString_digit: "n < 10 \<Longrightarrow> toString n = [char_of (48 + n)]"
  by (subst toString.simps) simp

lemma toString_5: "toString 5 = ''5''"
  by code_simp

lemma answer_then_finish:
  assumes "cardReady 4 s" "k < 3" "scoreboard s = Some sb"
  shows "\<exists>s' sb'. answerAndAdvance k rnd s = Inr s'
    \<and> score s' = score s + (if pickedCorrect k s then 1 else 0)
    \<and> scoreboard s' = Some sb'
    \<and> scoreText sb' = map_option (\<lambda>_. ''Score: '' @ toString (score s') @ ''/5'') (scoreText sb)
    \<and> sb_display sb' = ''flex''
    \<and> confettiContainer sb' =
        (if score s' = 5 then map_option (\<lambda>_. confettiLoop rnd 0 []) (confettiContainer sb)
         else confettiContainer sb)"
proof -
  obtain bs where bs: "backChoices s = Some bs" "length bs = 3"
    using cardReady_backChoices [OF assms(1)] by auto
  have na: "\<not> answered s" and ci: "currentIndex s = 4"
    using assms(1) by (auto simp: cardReady_def)
  have k: "k < length bs" using bs(2) assms(2) by simp
  note f = onSelectChoice_first [OF na bs(1) k]
  have sc: "score (onSelectChoice k s) = score s + (if pickedCorrect k s then 1 else 0)"
    using f(2) bs(1) k by (simp add: pickedCorrect_def)
  have sb: "scoreboard (onSelectChoice k s) = Some sb" using f(4) assms(3) by simp
  show ?thesis
    unfolding answerAndAdvance_def goToNext_def Let_def
    using f(3) ci sc sb
    by (simp add: quizData_length launchConfetti_def toString_5)
qed

lemma playCards_session:
  assumes "cardReady i s" "i + length picks = 5" "picks \<noteq> []" "\<forall>p \<in> set picks. fst p < 3"
    "scoreboard s = Some sb"
  shows "\<exists>s' sb'. playCards picks s = Inr s'
    \<and> score s' = score s + correctSelections picks s
    \<and> scoreboard s' = Some sb'
    \<and> scoreText sb' = map_option (\<lambda>_. ''Score: '' @ toString (score s') @ ''/5'') (scoreText sb)
    \<and> sb_display sb' = ''flex''
    \<and> confettiContainer sb' =
        (if score s' = 5
         then map_option (\<lambda>_. confettiLoop (snd (last picks)) 0 []) (confettiContainer sb)
         else confettiContainer sb)"
  using assms
proof (induction picks arbitrary: i s)
  case Nil
  then show ?case by simp
next
  case (Cons p rest)
  obtain k rnd where p: "p = (k, rnd)" by (cases p)
  have k: "k < 3" using Cons.prems(4) p by simp
  show ?case
  proof (cases "rest = []")
    case True
    then have "i = 4" using Cons.prems(2) by simp
    then have ready: "cardReady 4 s" using Cons.prems(1) by simp
    obtain s' sb' where s': "answerAndAdvance k rnd s = Inr s'"
        "score s' = score s + (if pickedCorrect k s then 1 else 0)"
        "scoreboard s' = Some sb'"
        "scoreText sb' = map_option (\<lambda>_. ''Score: '' @ toString (score s') @ ''/5'') (scoreText sb)"
        "sb_display sb' = ''flex''"
        "confettiContainer sb' =
          (if score s' = 5 then map_option (\<lambda>_. confettiLoop rnd 0 []) (confettiContainer sb)
           else confettiContainer sb)"
      using answer_then_finish [OF ready k Cons.prems(5), of rnd] by blast
    show ?thesis
      using s' True p by (intro exI [of _ s'] exI [of _ sb']) simp
  next
    case False
    then have i: "Suc i < 5" using Cons.prems(2) by (cases rest) auto
    obtain s1 where s1: "answerAndAdvance k rnd s = Inr s1" "cardReady (Suc i) s1"
        "score s1 = score s + (if pickedCorrect k s then 1 else 0)"
        "scoreboard s1 = scoreboard s"
      using answer_then_render [OF Cons.prems(1) i k, of rnd] by blast
    have len: "Suc i + length rest = 5" using Cons.prems(2) by simp
    have ks: "\<forall>p \<in> set rest. fst p < 3" using Cons.prems(4) by simp
    have sb: "scoreboard s1 = Some sb" using s1(4) Cons.prems(5) by simp
    obtain s' sb' where s': "playCards rest s1 = Inr s'"
        "score s' = score s1 + correctSelections rest s1"
        "scoreboard s' = Some sb'"
        "scoreText sb' = map_option (\<lambda>_. ''Score: '' @ toString (score s') @ ''/5'') (scoreText sb)"
        "sb_display sb' = ''flex''"
        "confettiContainer sb' =
          (if score s' = 5
           then map_option (\<lambda>_. confettiLoop (snd (last rest)) 0 []) (confettiContainer sb)
           else confettiContainer sb)"
      using Cons.IH [OF s1(2) len False ks sb] by blast
    show ?thesis
      using s' s1(1,3) False p by (intro exI [of _ s'] exI [of _ sb']) simp
  qed
qed

lemma particles_scoreboard:
  "scoreboard s = Some sb \<Longrightarrow> confettiContainer sb = Some ps \<Longrightarrow> particles s = ps"
  by (simp add: particles_def)

lemma firstCard_ready: "cardReady 0 firstCard"
  using renderCard_session(1,2) [OF firstCard_render] firstCard_backChoices
  by (simp add: cardReady_def length_createChoices quizPage_def)

lemma firstCard_score: "score firstCard = 0"
  using renderCard_session(3) [OF firstCard_render] by (simp add: quizPage_def)

lemma firstCard_scoreboard:
  "scoreboard firstCard = Some \<lparr>sb_display = [], scoreText = Some [], restartBtn = True,
                                confettiContainer = Some []\<rparr>"
  using renderCard_session(4) [OF firstCard_render] by (simp add: quizPage_def)

lemma mixed_count: "correctSelections mixedSession firstCard = 1"
  by code_simp

lemma toString_1: "toString (Suc 0) = ''1''"
  by code_simp

lemma mixed_picks: "\<forall>p \<in> set mixedSession. fst p < 3"
  by (simp add: mixedSession_def)

section \<open>Claims about the scoreboard\<close>

text \<open>
  C1. Start from a freshly rendered first card with score 0, on a page that has the
  scoreboard with its score text and an empty confetti container. After a selection on
  each of the five cards, each followed by the advance control, the last \<open>goToNext\<close>
  returns normally, the score is the number of correct selections made, the scoreboard is
  displayed with the text \<open>Score: n/5\<close> for that number \<open>n\<close>, and confetti has been
  launched if and only if \<open>n = 5\<close>.
\<close>

theorem score_shown_after_five_cards:
  assumes "cardReady 0 s" "score s = 0" "length picks = 5" "\<forall>p \<in> set picks. fst p < 3"
    "scoreboard s = Some sb" "scoreText sb = Some t" "confettiContainer sb = Some []"
  shows "\<exists>s' sb'. playCards picks s = Inr s'
    \<and> score s' = correctSelections picks s
    \<and> scoreboard s' = Some sb'
    \<and> sb_display sb' = ''flex''
    \<and> scoreText sb' = Some (''Score: '' @ toString (correctSelections picks s) @ ''/5'')
    \<and> confettiContainer sb' =
        Some (if correctSelections picks s = 5 then confettiLoop (snd (last picks)) 0 [] else [])
    \<and> (particles s' \<noteq> [] \<longleftrightarrow> correctSelections picks s = 5)"
proof -
  have ne: "picks \<noteq> []" using assms(3) by auto
  have len: "0 + length picks = 5" using assms(3) by simp
  obtain s' sb' where s': "playCards picks s = Inr s'"
      "score s' = score s + correctSelections picks s"
      "scoreboard s' = Some sb'"
      "scoreText sb' = map_option (\<lambda>_. ''Score: '' @ toString (score s') @ ''/5'') (scoreText sb)"
      "sb_display sb' = ''flex''"
      "confettiContainer sb' =
        (if score s' = 5
         then map_option (\<lambda>_. confettiLoop (snd (last picks)) 0 []) (confettiContainer sb)
         else confettiContainer sb)"
    using playCards_session [OF assms(1) len ne assms(4,5)] by blast
  have sc: "score s' = correctSelections picks s" using s'(2) assms(2) by simp
  have cc: "confettiContainer sb' =
      Some (if correctSelections picks s = 5 then confettiLoop (snd (last picks)) 0 [] else [])"
    using s'(6) sc assms(7) by simp
  have "length (confettiLoop (snd (last picks)) 0 []) = 40" by (rule confettiLoop_length)
  then have "confettiLoop (snd (last picks)) 0 [] \<noteq> []" by auto
  then have "particles s' \<noteq> [] \<longleftrightarrow> correctSelections picks s = 5"
    using particles_scoreboard [OF s'(3) cc] by simp
  then show ?thesis
    using s'(1,3,4,5) sc cc assms(6) by (intro exI [of _ s'] exI [of _ sb']) simp
qed

theorem score_shown_after_five_cards_witness:
  "cardReady 0 firstCard \<and> score firstCard = 0 \<and> length mixedSession = 5
   \<and> list_all (\<lambda>p. fst p < 3) mixedSession
   \<and> scoreboard firstCard = Some \<lparr>sb_display = [], scoreText = Some [], restartBtn = True,
                                   confettiContainer = Some []\<rparr>
   \<and> (\<exists>s' sb'. playCards mixedSession firstCard = Inr s'
        \<and> score s' = 1
        \<and> scoreboard s' = Some sb'
        \<and> sb_display sb' = ''flex''
        \<and> scoreText sb' = Some ''Score: 1/5''
        \<and> confettiContainer sb' = Some []
        \<and> particles s' = [])"
proof -
  have len: "length mixedSession = 5" by (simp add: mixedSession_def)
  have t: "scoreText \<lparr>sb_display = [], scoreText = Some [], restartBtn = True,
                      confettiContainer = Some []\<rparr> = Some []" by simp
  have c: "confettiContainer \<lparr>sb_display = [], scoreText = Some [], restartBtn = True,
                      confettiContainer = Some []\<rparr> = Some []" by simp
  note r = score_shown_after_five_cards
    [OF firstCard_ready firstCard_score len mixed_picks firstCard_scoreboard t c]
  have "\<exists>s' sb'. playCards mixedSession firstCard = Inr s'
        \<and> score s' = 1
        \<and> scoreboard s' = Some sb'
        \<and> sb_display sb' = ''flex''
        \<and> scoreText sb' = Some ''Score: 1/5''
        \<and> confettiContainer sb' = Some []
        \<and> particles s' = []"
    using r by (simp add: mixed_count toString_1)
  moreover have "list_all (\<lambda>p. fst p < 3) mixedSession" by (simp add: mixedSession_def)
  ultimately show ?thesis
    using firstCard_ready firstCard_score len firstCard_scoreboard by blast
qed

text \<open>
  C6 is not stated. What it says of each particle is a statement about doubles: the code
  computes \<open>Math.random() * 6 + 4\<close> and its like with rounding, so the value written for a
  draw is not the exact \<open>6 r + 4\<close> (the largest draw below 1 gives a width of exactly 10), and
  "uniformly random" is a statement about the distribution of \<open>Math.random\<close>. Neither
  the arithmetic of doubles nor a probability distribution is part of this model. How many
  particles there are, 40 after a perfect run and none otherwise, is part of C1.
\<close>

section \<open>The retry control of the lock-screen slide\<close>






end
